theory Spec2Isabelle
  imports Main
begin

section \<open>Regular expressions of the \<open>say\<close> command\<close>

text \<open>
  The command validates its fields and its store with anchored regular expressions
  (\<open>^...$\<close>, no flags, no back references), so \<open>String.prototype.match\<close> answers
  whether the whole string belongs to the language of the expression. Strings are lists
  of 8-bit code units. An expression is matched by taking its derivative by each
  character in turn; \<open>lang\<close> is the language it denotes.
\<close>

datatype rx = Fail | Eps | Cls "char \<Rightarrow> bool" | Or rx rx | Cat rx rx | Many rx

fun nullable :: "rx \<Rightarrow> bool" where
  "nullable Fail = False"
| "nullable Eps = True"
| "nullable (Cls p) = False"
| "nullable (Or a b) = (nullable a \<or> nullable b)"
| "nullable (Cat a b) = (nullable a \<and> nullable b)"
| "nullable (Many a) = True"

fun alt :: "rx \<Rightarrow> rx \<Rightarrow> rx" where
  "alt Fail b = b"
| "alt a Fail = a"
| "alt a b = Or a b"

fun cat :: "rx \<Rightarrow> rx \<Rightarrow> rx" where
  "cat Fail b = Fail"
| "cat Eps b = b"
| "cat a b = Cat a b"

fun deriv :: "char \<Rightarrow> rx \<Rightarrow> rx" where
  "deriv c Fail = Fail"
| "deriv c Eps = Fail"
| "deriv c (Cls p) = (if p c then Eps else Fail)"
| "deriv c (Or a b) = alt (deriv c a) (deriv c b)"
| "deriv c (Cat a b) =
     (if nullable a then alt (cat (deriv c a) b) (deriv c b) else cat (deriv c a) b)"
| "deriv c (Many a) = cat (deriv c a) (Many a)"

fun rx_match :: "rx \<Rightarrow> string \<Rightarrow> bool" where
  "rx_match r [] = nullable r"
| "rx_match r (c # cs) = rx_match (deriv c r) cs"

declare rx_match.simps [simp del]

fun lang :: "rx \<Rightarrow> string set" where
  "lang Fail = {}"
| "lang Eps = {[]}"
| "lang (Cls p) = {[c] |c. p c}"
| "lang (Or a b) = lang a \<union> lang b"
| "lang (Cat a b) = {u @ v |u v. u \<in> lang a \<and> v \<in> lang b}"
| "lang (Many a) = {concat ws |ws. set ws \<subseteq> lang a}"

text \<open>A literal string, \<open>r+\<close> and the bounded repetition \<open>r{m,n}\<close>.\<close>

fun lit :: "string \<Rightarrow> rx" where
  "lit [] = Eps"
| "lit (c # cs) = Cat (Cls (\<lambda>x. x = c)) (lit cs)"

definition many1 :: "rx \<Rightarrow> rx" where
  "many1 r = Cat r (Many r)"

fun rep :: "nat \<Rightarrow> nat \<Rightarrow> rx \<Rightarrow> rx" where
  "rep 0 0 r = Eps"
| "rep 0 (Suc n) r = Or Eps (Cat r (rep 0 n r))"
| "rep (Suc m) 0 r = Fail"
| "rep (Suc m) (Suc n) r = Cat r (rep m n r)"

definition dq :: char where
  "dq = CHR 0x22"

definition bsl :: char where
  "bsl = CHR 0x5C"

definition digit :: "char \<Rightarrow> bool" where
  "digit c = (c \<in> set ''0123456789'')"

definition word_char :: "char \<Rightarrow> bool" where
  "word_char c =
     (c \<in> set ''abcdefghijklmnopqrstuvwxyzABCDEFGHIJKLMNOPQRSTUVWXYZ0123456789_'')"

definition name_char :: "char \<Rightarrow> bool" where
  "name_char c = (word_char c \<or> c = CHR ''-'')"

text \<open>\<^verbatim>\<open>/^\d+$|^(\d+:){1,2}(\d+)$/\<close>\<close>

definition every_rx :: rx where
  "every_rx =
     Or (many1 (Cls digit))
        (Cat (rep 1 2 (Cat (many1 (Cls digit)) (lit '':''))) (many1 (Cls digit)))"

text \<open>\<^verbatim>\<open>/^[a-zA-Z0-9_]{4,25}$/\<close>\<close>

definition on_rx :: rx where
  "on_rx = rep 4 25 (Cls word_char)"

text \<open>\<^verbatim>\<open>/^[a-zA-Z0-9_-]{3,40}$/\<close>\<close>

definition named_rx :: rx where
  "named_rx = rep 3 40 (Cls name_char)"

text \<open>
  One entry of the store pattern:
  \<^verbatim>\<open>"[a-zA-Z0-9_-]{3,40}":{("totalWaitInterval":\d+,"channel":"[a-zA-Z0-9_]{4,25}","taskMessage":"(([^"]|(\\"))*)")}\<close>
\<close>

definition entry_rx :: rx where
  "entry_rx =
     Cat (lit [dq]) (Cat (rep 3 40 (Cls name_char)) (Cat (lit (dq # '':{''))
       (Cat
         (Cat (lit (dq # ''totalWaitInterval'' @ dq # '':'')) (Cat (many1 (Cls digit))
         (Cat (lit ('','' @ dq # ''channel'' @ dq # '':'' @ [dq])) (Cat (rep 4 25 (Cls word_char))
         (Cat (lit (dq # '','' @ dq # ''taskMessage'' @ dq # '':'' @ [dq]))
         (Cat (Many (Or (Cls (\<lambda>c. c \<noteq> dq)) (lit [bsl, dq]))) (lit [dq])))))))
       (lit ''}''))))"

text \<open>The store pattern of \<open>validateJSON\<close>: \<^verbatim>\<open>/^(\[{((E,){0,}(E))*}\])$/\<close> with \<open>E\<close> the entry.\<close>

definition taskList :: rx where
  "taskList =
     Cat (lit ''[{'')
       (Cat (Many (Cat (Many (Cat entry_rx (lit '',''))) entry_rx)) (lit ''}]''))"

section \<open>JavaScript values and \<open>JSON.stringify\<close>\<close>

text \<open>
  The values the command holds in memory. An object is the list of its own properties
  in enumeration order. Reading a property that an object does not own finds the
  properties of \<open>Object.prototype\<close>: its methods (\<open>JFunction\<close>) and, under
  \<open>__proto__\<close>, the prototype object itself.

  A number is named by the decimal digits \<open>Number::toString\<close> finds for it, the
  shortest that read back as the same double: \<open>JNum x\<close> is the integer with the
  decimal expansion \<open>x\<close> (below \<open>2^53\<close> every integer is one), \<open>JDecimal neg s n\<close> is
  a number that is not an integer, with the sign \<open>neg\<close>, the digits \<open>s\<close> and the
  position \<open>n\<close> of the decimal point, so that its value is \<open>s * 10^(n - k)\<close> for \<open>k\<close>
  digits. \<open>JInfinity\<close> is either infinity, which \<open>JSON.parse\<close> gives for a literal
  such as \<open>1e999\<close>.
\<close>

datatype jsval =
    JUndefined
  | JNull
  | JBool bool
  | JNum int
  | JStr string
  | JArr "jsval list"
  | JObj "(string \<times> jsval) list"
  | JFunction
  | JObjectPrototype
  | JDecimal bool nat int
  | JInfinity

type_synonym obj = "(string \<times> jsval) list"

fun truthy :: "jsval \<Rightarrow> bool" where
  "truthy JUndefined = False"
| "truthy JNull = False"
| "truthy (JBool b) = b"
| "truthy (JNum n) = (n \<noteq> 0)"
| "truthy (JStr s) = (s \<noteq> [])"
| "truthy _ = True"

fun joinWith :: "string \<Rightarrow> string list \<Rightarrow> string" where
  "joinWith sep [] = []"
| "joinWith sep [w] = w"
| "joinWith sep (w # ws) = w @ sep @ joinWith sep ws"

definition digit_char :: "nat \<Rightarrow> char" where
  "digit_char n = ''0123456789abcdef'' ! n"

fun digits_of :: "nat \<Rightarrow> string" where
  "digits_of n = (if n < 10 then [digit_char n] else digits_of (n div 10) @ [digit_char (n mod 10)])"

declare digits_of.simps [simp del]

text \<open>
  \<open>Number::toString\<close> from the digits \<open>s\<close> and the position \<open>n\<close>: plain digits,
  padded with zeros, for an integer below \<open>10^21\<close>; a decimal point inside or after
  \<open>0.\<close>; the exponent form everywhere else.
\<close>

definition number_text :: "nat \<Rightarrow> int \<Rightarrow> string" where
  "number_text s n =
     (let ds = digits_of s; k = int (length ds) in
      if - 6 < n \<and> n \<le> 21 then
        (if k \<le> n then ds @ replicate (nat (n - k)) CHR ''0''
         else if 0 < n then take (nat n) ds @ ''.'' @ drop (nat n) ds
         else ''0.'' @ replicate (nat (- n)) CHR ''0'' @ ds)
      else
        (if k = 1 then ds else take 1 ds @ ''.'' @ drop 1 ds)
          @ ''e'' @ (if 0 \<le> n - 1 then ''+'' else ''-'') @ digits_of (nat \<bar>n - 1\<bar>))"

text \<open>The digits of an integer are its own without the trailing zeros.\<close>

fun strip10 :: "nat \<Rightarrow> nat" where
  "strip10 n = (if n \<noteq> 0 \<and> n mod 10 = 0 then strip10 (n div 10) else n)"

declare strip10.simps [simp del]

definition sign_text :: "bool \<Rightarrow> string" where
  "sign_text neg = (if neg then ''-'' else [])"

definition Number_toString :: "int \<Rightarrow> string" where
  "Number_toString x =
     (if x = 0 then ''0''
      else sign_text (x < 0)
           @ number_text (strip10 (nat \<bar>x\<bar>)) (int (length (digits_of (nat \<bar>x\<bar>)))))"

text \<open>The escapes of \<open>JSON.stringify\<close> inside a string.\<close>

definition escape_char :: "char \<Rightarrow> string" where
  "escape_char c =
     (if c = dq then [bsl, dq]
      else if c = bsl then [bsl, bsl]
      else if c = CHR 0x08 then [bsl, CHR ''b'']
      else if c = CHR 0x0C then [bsl, CHR ''f'']
      else if c = CHR 0x0A then [bsl, CHR ''n'']
      else if c = CHR 0x0D then [bsl, CHR ''r'']
      else if c = CHR 0x09 then [bsl, CHR ''t'']
      else if (of_char c :: nat) < 32
        then bsl # ''u00'' @ [digit_char (of_char c div 16), digit_char (of_char c mod 16)]
      else [c])"

definition quote :: "string \<Rightarrow> string" where
  "quote s = dq # concat (map escape_char s) @ [dq]"

fun serializable :: "jsval \<Rightarrow> bool" where
  "serializable JUndefined = False"
| "serializable JFunction = False"
| "serializable _ = True"

fun JSON_stringify :: "jsval \<Rightarrow> string"
  and stringify_elements :: "jsval list \<Rightarrow> string list"
  and stringify_members :: "(string \<times> jsval) list \<Rightarrow> string list" where
  "JSON_stringify JNull = ''null''"
| "JSON_stringify (JBool b) = (if b then ''true'' else ''false'')"
| "JSON_stringify (JNum n) = Number_toString n"
| "JSON_stringify (JStr s) = quote s"
| "JSON_stringify (JArr xs) = ''['' @ joinWith '','' (stringify_elements xs) @ '']''"
| "JSON_stringify (JObj ps) = ''{'' @ joinWith '','' (stringify_members ps) @ ''}''"
| "JSON_stringify JObjectPrototype = ''{}''"
| "JSON_stringify JUndefined = []"
| "JSON_stringify JFunction = []"
| "JSON_stringify (JDecimal neg s n) = sign_text neg @ number_text s n"
| "JSON_stringify JInfinity = ''null''"
| "stringify_elements [] = []"
| "stringify_elements (x # xs) =
     (if serializable x then JSON_stringify x else ''null'') # stringify_elements xs"
| "stringify_members [] = []"
| "stringify_members ((k, v) # ps) =
     (if serializable v then [quote k @ '':'' @ JSON_stringify v] else [])
       @ stringify_members ps"

text \<open>
  What \<open>JSON.parse\<close> reads back from the text \<open>JSON.stringify\<close> writes: members holding
  \<open>undefined\<close> or a function are left out, such elements of an array become \<open>null\<close>,
  and so does an infinity.
\<close>

fun reparse :: "jsval \<Rightarrow> jsval"
  and reparse_elements :: "jsval list \<Rightarrow> jsval list"
  and reparse_members :: "(string \<times> jsval) list \<Rightarrow> (string \<times> jsval) list" where
  "reparse (JArr xs) = JArr (reparse_elements xs)"
| "reparse (JObj ps) = JObj (reparse_members ps)"
| "reparse JObjectPrototype = JObj []"
| "reparse JUndefined = JUndefined"
| "reparse JNull = JNull"
| "reparse (JBool b) = JBool b"
| "reparse (JNum n) = JNum n"
| "reparse (JStr s) = JStr s"
| "reparse JFunction = JFunction"
| "reparse (JDecimal neg s n) = JDecimal neg s n"
| "reparse JInfinity = JNull"
| "reparse_elements [] = []"
| "reparse_elements (x # xs) =
     (if serializable x then reparse x else JNull) # reparse_elements xs"
| "reparse_members [] = []"
| "reparse_members ((k, v) # ps) =
     (if serializable v then [(k, reparse v)] else []) @ reparse_members ps"

section \<open>The interval parser\<close>

text \<open>
  The numbers of the parser are integers held in doubles. \<open>toDouble\<close> is the double
  nearest to an integer, ties to the even significand: the integer itself below
  \<open>2^53\<close>, a multiple of a power of two above. A sum or a product is the double nearest
  to the exact one. (Beyond the largest double the code holds an infinity; like every
  value above \<open>8.64e15\<close> it fails the date checks below.)
\<close>

fun bit_length :: "nat \<Rightarrow> nat" where
  "bit_length n = (if n = 0 then 0 else Suc (bit_length (n div 2)))"

declare bit_length.simps [simp del]

definition toDouble :: "int \<Rightarrow> int" where
  "toDouble x =
     (if \<bar>x\<bar> < 2 ^ 53 then x
      else
        (let q = 2 ^ (bit_length (nat \<bar>x\<bar>) - 53);
             m = \<bar>x\<bar> div q;
             r = \<bar>x\<bar> mod q;
             m' = (if q < 2 * r \<or> (2 * r = q \<and> odd m) then m + 1 else m)
         in sgn x * (m' * q)))"

definition dadd :: "int \<Rightarrow> int \<Rightarrow> int" where
  "dadd a b = toDouble (a + b)"

definition dmul :: "int \<Rightarrow> int \<Rightarrow> int" where
  "dmul a b = toDouble (a * b)"

text \<open>
  \<open>parseInt\<close> with no radix: leading white space is skipped, a sign is read, the prefix
  \<open>0x\<close> selects base 16, and the longest run of digits is the value; no digit at all
  gives \<open>NaN\<close>, here \<open>None\<close>.
\<close>

definition isWhiteSpace :: "char \<Rightarrow> bool" where
  "isWhiteSpace c =
     (c \<in> set [CHR 0x09, CHR 0x0A, CHR 0x0B, CHR 0x0C, CHR 0x0D, CHR 0x20, CHR 0xA0])"

definition digit_value :: "char \<Rightarrow> nat option" where
  "digit_value c =
     (let n = (of_char c :: nat) in
      if 48 \<le> n \<and> n \<le> 57 then Some (n - 48)
      else if 97 \<le> n \<and> n \<le> 122 then Some (n - 87)
      else if 65 \<le> n \<and> n \<le> 90 then Some (n - 55)
      else None)"

fun radix_digits :: "nat \<Rightarrow> string \<Rightarrow> nat list" where
  "radix_digits R [] = []"
| "radix_digits R (c # cs) =
     (case digit_value c of
        None \<Rightarrow> []
      | Some d \<Rightarrow> if d < R then d # radix_digits R cs else [])"

definition parseInt :: "string \<Rightarrow> int option" where
  "parseInt str =
     (let S = dropWhile isWhiteSpace str;
          negative = (take 1 S = ''-'');
          S1 = (if take 1 S = ''-'' \<or> take 1 S = ''+'' then drop 1 S else S);
          hex = (take 2 S1 = ''0x'' \<or> take 2 S1 = ''0X'');
          R = (if hex then 16 else 10);
          Z = radix_digits R (if hex then drop 2 S1 else S1)
      in if Z = [] then None
         else Some ((if negative then - 1 else 1)
                    * toDouble (int (foldl (\<lambda>a d. a * R + d) 0 Z))))"

text \<open>\<open>interval.split(":")\<close>\<close>

fun split_colon :: "string \<Rightarrow> string list" where
  "split_colon [] = [[]]"
| "split_colon (c # cs) =
     (if c = CHR '':'' then [] # split_colon cs
      else (case split_colon cs of w # ws \<Rightarrow> (c # w) # ws | [] \<Rightarrow> [[c]]))"

text \<open>
  \<open>new Date(t).toString() === "Invalid Date"\<close>: a time value is kept up to
  \<open>8.64e15\<close> milliseconds either side of the epoch.
\<close>

definition invalidDate :: "int \<Rightarrow> bool" where
  "invalidDate t = (\<bar>t\<bar> > 8640000000000000)"

text \<open>
  A time part is \<open>None\<close> when it is \<open>undefined\<close> or \<open>NaN\<close>; both are falsy and
  the code reads neither.
\<close>

fun truthy_part :: "int option \<Rightarrow> bool" where
  "truthy_part None = False"
| "truthy_part (Some n) = (n \<noteq> 0)"

fun part :: "int option \<Rightarrow> int" where
  "part None = 0"
| "part (Some n) = n"

text \<open>\<open>epox\<close> is the clock reading \<open>(new Date()).getTime()\<close>, a time value.\<close>

definition parseSeconds :: "int \<Rightarrow> string \<Rightarrow> int" where
  "parseSeconds epox interval =
     (let timeParts = map parseInt (split_colon interval);
          hms = (case timeParts of
                   [s] \<Rightarrow> (None, None, s)
                 | [m, s] \<Rightarrow> (None, m, s)
                 | [h, m, s] \<Rightarrow> (h, m, s)
                 | _ \<Rightarrow> (None, None, None));
          hours = fst hms; minutes = fst (snd hms); seconds = snd (snd hms)
      in if (truthy_part seconds \<and> invalidDate (dadd epox (part seconds)))
            \<or> (truthy_part minutes \<and> invalidDate (dadd epox (dmul (part minutes) 60)))
            \<or> (truthy_part hours \<and> invalidDate (dadd epox (dmul (dmul (part hours) 60) 60)))
         then 0
         else
           (let i0 = 0;
                i1 = (if truthy_part seconds then dadd i0 (part seconds) else i0);
                i2 = (if truthy_part minutes then dadd i1 (dmul (part minutes) 60) else i1);
                intervalInSeconds =
                  (if truthy_part hours then dadd i2 (dmul (dmul (part hours) 60) 60) else i2)
            in if invalidDate intervalInSeconds then 0 else intervalInSeconds))"

section \<open>The field validator\<close>

text \<open>The argument is the object literal, as the list of its members; \<open>None\<close> is \<open>false\<close>.\<close>

fun checkRegexNotMatch :: "(string \<times> string) list \<Rightarrow> string option" where
  "checkRegexNotMatch [] = None"
| "checkRegexNotMatch ((type, v) # toMatch) =
     (if type = ''every'' \<and> \<not> rx_match every_rx v
        then Some ''Interval should be in h:m:s or m:s or s format.''
      else if type = ''on'' \<and> \<not> rx_match on_rx v
        then Some (''Username should only contain alphanumeric and underscores, ''
                   @ ''ranging from 4-25 characters only.'')
      else if type = ''named'' \<and> \<not> rx_match named_rx v
        then Some (''Task names should only contain alphanumerics, hyphens ''
                   @ ''and underscores, ranging from 3-50 characters only.'')
      else checkRegexNotMatch toMatch)"

section \<open>Objects\<close>

definition objectPrototypeMethods :: "string list" where
  "objectPrototypeMethods =
     [''constructor'', ''__defineGetter__'', ''__defineSetter__'', ''hasOwnProperty'',
      ''__lookupGetter__'', ''__lookupSetter__'', ''isPrototypeOf'', ''propertyIsEnumerable'',
      ''toString'', ''valueOf'', ''toLocaleString'']"

text \<open>\<open>o[k]\<close> read from an object with the own properties \<open>ps\<close>.\<close>

definition getProp :: "obj \<Rightarrow> string \<Rightarrow> jsval" where
  "getProp ps k =
     (case map_of ps k of
        Some v \<Rightarrow> v
      | None \<Rightarrow>
          if k = ''__proto__'' then JObjectPrototype
          else if k \<in> set objectPrototypeMethods then JFunction
          else JUndefined)"

text \<open>
  Own properties are enumerated with the array indices first, in ascending order, then
  the other names in the order they were added.
\<close>

definition decimal :: "string \<Rightarrow> nat" where
  "decimal ds = foldl (\<lambda>a c. 10 * a + (of_char c - 48)) 0 ds"

definition isArrayIndex :: "string \<Rightarrow> bool" where
  "isArrayIndex k =
     (k \<noteq> [] \<and> list_all digit k \<and> (k = ''0'' \<or> hd k \<noteq> CHR ''0'')
      \<and> decimal k \<le> 4294967294)"

fun addProp :: "obj \<Rightarrow> string \<Rightarrow> jsval \<Rightarrow> obj" where
  "addProp [] k v = [(k, v)]"
| "addProp ((k', v') # ps) k v =
     (if isArrayIndex k \<and> (\<not> isArrayIndex k' \<or> decimal k < decimal k')
        then (k, v) # (k', v') # ps
      else (k', v') # addProp ps k v)"

text \<open>Defining a data property, as a spread into an object literal does.\<close>

definition defineProp :: "obj \<Rightarrow> string \<Rightarrow> jsval \<Rightarrow> obj" where
  "defineProp ps k v =
     (if k \<in> fst ` set ps then map (\<lambda>(k', v'). if k' = k then (k', v) else (k', v')) ps
      else addProp ps k v)"

text \<open>
  The assignment \<open>o[k] = v\<close>. Where \<open>o\<close> has no own \<open>__proto__\<close>, assigning to that
  name runs the setter of \<open>Object.prototype\<close>, which adds no own property.
\<close>

definition setProp :: "obj \<Rightarrow> string \<Rightarrow> jsval \<Rightarrow> obj" where
  "setProp ps k v =
     (if k \<notin> fst ` set ps \<and> k = ''__proto__'' then ps else defineProp ps k v)"

text \<open>\<open>delete o[k]\<close>\<close>

definition deleteProp :: "obj \<Rightarrow> string \<Rightarrow> obj" where
  "deleteProp ps k = filter (\<lambda>(k', v'). k' \<noteq> k) ps"

text \<open>The own enumerable properties a spread \<open>{...v}\<close> copies.\<close>

fun ownProps :: "jsval \<Rightarrow> obj" where
  "ownProps (JObj ps) = ps"
| "ownProps (JArr xs) = zip (map digits_of [0 ..< length xs]) xs"
| "ownProps (JStr s) = zip (map digits_of [0 ..< length s]) (map (\<lambda>c. JStr [c]) s)"
| "ownProps _ = []"

text \<open>\<open>{...old, ...updatedTask}\<close>\<close>

definition spread :: "jsval \<Rightarrow> obj \<Rightarrow> obj" where
  "spread old updatedTask = foldl (\<lambda>ps (k, v). defineProp ps k v) (ownProps old) updatedTask"

section \<open>The task store\<close>

text \<open>
  The store file is modelled by what reading it gives: no file (\<open>readFileSync\<close> throws
  \<open>ENOENT\<close>), text that \<open>JSON.parse\<close> rejects, or the value \<open>JSON.parse\<close> returns.
  Writing \<open>JSON.stringify(v, null, n)\<close> leaves a file that parses to \<open>reparse v\<close>; the
  indentation is not modelled, and a write is taken to succeed.
\<close>

datatype store_file = NoFile | NotJSON | Json jsval

definition writeFileSync_JSON :: "jsval \<Rightarrow> store_file" where
  "writeFileSync_JSON v = Json (reparse v)"

text \<open>\<open>DBInit\<close> writes \<open>[{}]\<close> when the file does not exist.\<close>

definition emptyStore :: jsval where
  "emptyStore = JArr [JObj []]"

definition DBInit :: "store_file \<Rightarrow> store_file" where
  "DBInit fs = (case fs of NoFile \<Rightarrow> writeFileSync_JSON emptyStore | _ \<Rightarrow> fs)"

text \<open>
  The task name reaches \<open>updateTaskList\<close> as a string from \<open>exec\<close> and as the array
  \<open>request.splice(0, 1)\<close> from \<open>modifyTask\<close>. As a property key and in a template
  string an array is the join of its elements with commas; an array is truthy, and it is
  never \<open>===\<close> to a string.
\<close>

datatype name_arg = NameStr string | NameArr "string list"

fun toPropertyKey :: "name_arg \<Rightarrow> string" where
  "toPropertyKey (NameStr s) = s"
| "toPropertyKey (NameArr ws) = joinWith '','' ws"

fun truthy_name :: "name_arg \<Rightarrow> bool" where
  "truthy_name (NameStr s) = (s \<noteq> [])"
| "truthy_name (NameArr ws) = True"

fun strictNotEqual :: "name_arg \<Rightarrow> string \<Rightarrow> bool" where
  "strictNotEqual (NameStr s) t = (s \<noteq> t)"
| "strictNotEqual (NameArr ws) t = True"

datatype error = TypeError

text \<open>The array destructuring \<open>const [tasks] = db\<close>.\<close>

fun firstOf :: "jsval \<Rightarrow> error + jsval" where
  "firstOf (JArr []) = Inr JUndefined"
| "firstOf (JArr (x # xs)) = Inr x"
| "firstOf (JStr []) = Inr JUndefined"
| "firstOf (JStr (c # cs)) = Inr (JStr [c])"
| "firstOf _ = Inl TypeError"

text \<open>
  \<open>validateJSON\<close>. When the pattern fails and a task name is given, the diagnostic
  reads \<open>tasks[taskName]\<close>, which throws on \<open>undefined\<close> and \<open>null\<close>; what it prints
  is not modelled. The logging collaborator is taken to return.
\<close>

definition validateJSON :: "jsval \<Rightarrow> name_arg \<Rightarrow> error + bool" where
  "validateJSON db taskName =
     (if \<not> serializable db then Inl TypeError
      else if rx_match taskList (JSON_stringify db) then Inr True
      else if truthy_name taskName then
        (case firstOf db of
           Inl err \<Rightarrow> Inl err
         | Inr JUndefined \<Rightarrow> Inl TypeError
         | Inr JNull \<Rightarrow> Inl TypeError
         | Inr tasks \<Rightarrow> Inr False)
      else Inr False)"

text \<open>
  The three ways \<open>updateTaskList\<close> is called: \<open>"create"\<close> with the new task,
  \<open>"modify"\<close> with the one-member object \<open>modifiedTask\<close>, \<open>"delete"\<close> with nothing.
\<close>

record task =
  totalWaitInterval :: int
  channel :: string
  taskMessage :: string

definition taskObject :: "task \<Rightarrow> obj" where
  "taskObject t =
     [(''totalWaitInterval'', JNum (totalWaitInterval t)),
      (''channel'', JStr (channel t)),
      (''taskMessage'', JStr (taskMessage t))]"

datatype patch = TaskMessage string | TotalWaitInterval int | Channel string | Named string

fun patchObject :: "patch \<Rightarrow> obj" where
  "patchObject (TaskMessage m) = [(''taskMessage'', JStr m)]"
| "patchObject (TotalWaitInterval n) = [(''totalWaitInterval'', JNum n)]"
| "patchObject (Channel c) = [(''channel'', JStr c)]"
| "patchObject (Named n) = [(''named'', JStr n)]"

datatype update = Create task | Modify patch | Delete

datatype reply = Reply string | ReplyFalse | Thrown error

text \<open>
  \<open>updateTaskList\<close> returns its reply and the file it leaves. Every exception inside
  its \<open>try\<close> ends in \<open>return false\<close>. After the validator has accepted the document
  its first element is an object (\<open>validateJSON_shape\<close> below), so the last case is
  never taken.
\<close>

definition updateTaskList :: "store_file \<Rightarrow> name_arg \<Rightarrow> update \<Rightarrow> reply \<times> store_file" where
  "updateTaskList fs taskName upd =
     (case fs of
        NoFile \<Rightarrow> (ReplyFalse, fs)
      | NotJSON \<Rightarrow> (ReplyFalse, fs)
      | Json JSONfile \<Rightarrow>
          (case validateJSON JSONfile (case upd of Modify p \<Rightarrow> taskName | _ \<Rightarrow> NameStr [])
           of
             Inl err \<Rightarrow> (ReplyFalse, fs)
           | Inr False \<Rightarrow> (Reply ''Invalid Task List.'', fs)
           | Inr True \<Rightarrow>
               (case JSONfile of
                  JArr (JObj tasks # rest) \<Rightarrow>
                    (let name = toPropertyKey taskName in
                     case upd of
                       Create updatedTask \<Rightarrow>
                         if truthy (getProp tasks name)
                           then (Reply (''Task with name '' @ [CHR 0x27] @ name @ [CHR 0x27]
                                        @ '' already exists.''), fs)
                         else
                           (Reply (''Task '' @ name @ '' activated on channel ''
                                   @ channel updatedTask @ ''.''),
                            writeFileSync_JSON
                              (JArr [JObj (setProp tasks name (JObj (taskObject updatedTask)))]))
                     | Modify updatedTask \<Rightarrow>
                         if \<not> truthy (getProp tasks name)
                           then (Reply (''The task '' @ [CHR 0x27] @ name @ [CHR 0x27]
                                        @ '' does not exists.''), fs)
                         else
                           (Reply (''Task '' @ name @ '' successfully modified.''),
                            writeFileSync_JSON (JArr [JObj
                              (case updatedTask of
                                 Named new \<Rightarrow>
                                   if strictNotEqual taskName new
                                     then deleteProp (setProp tasks new (getProp tasks name)) name
                                   else tasks
                               | _ \<Rightarrow>
                                   setProp tasks name
                                     (JObj (spread (getProp tasks name) (patchObject updatedTask))))]))
                     | Delete \<Rightarrow>
                         if \<not> truthy (getProp tasks name)
                           then (Reply (''The task '' @ [CHR 0x27] @ name @ [CHR 0x27]
                                        @ '' does not exists.''), fs)
                         else
                           (Reply (''Task '' @ name @ '' successfully removed.''),
                            writeFileSync_JSON (JArr [JObj (deleteProp tasks name)])))
                | _ \<Rightarrow> (ReplyFalse, fs))))"

section \<open>The command parser\<close>

record env =
  PREFIX :: string
  clock :: int

definition usage :: "env \<Rightarrow> string" where
  "usage e = PREFIX e @ ''say <message> every <h>:<m>:<s> on <channel> named <task-name>''"

definition modify :: "env \<Rightarrow> string" where
  "modify e =
     PREFIX e @ ''say modify say|on|every|named <message>|<h>:<m>:<s>|<channel>|<task-name>''"

text \<open>
  \<open>toLowerCase\<close> on 8-bit code units: the letters \<open>A\<close> to \<open>Z\<close> and the capital
  letters of Latin-1, \<open>U+00C0\<close> to \<open>U+00DE\<close> without the multiplication sign.
\<close>

definition lower_char :: "char \<Rightarrow> char" where
  "lower_char c =
     (let n = (of_char c :: nat) in
      if (65 \<le> n \<and> n \<le> 90) \<or> (192 \<le> n \<and> n \<le> 222 \<and> n \<noteq> 215)
        then char_of (n + 32) else c)"

definition toLowerCase :: "string \<Rightarrow> string" where
  "toLowerCase s = map lower_char s"

text \<open>
  The result of a command: the reply, the store file it leaves, and the arguments
  \<open>parseSeconds\<close> was called with, in order.
\<close>

record outcome =
  reply :: reply
  disk :: store_file
  parsed :: "string list"

definition returns :: "reply \<times> store_file \<Rightarrow> string list \<Rightarrow> outcome" where
  "returns r calls = \<lparr>reply = fst r, disk = snd r, parsed = calls\<rparr>"

text \<open>
  \<open>modifyTask\<close> receives the request without its first word. \<open>taskName\<close> is the array
  \<open>request.splice(0, 1)\<close>.
\<close>

definition modifyTask :: "env \<Rightarrow> store_file \<Rightarrow> string list \<Rightarrow> outcome" where
  "modifyTask e fs request0 =
     (let taskName = NameArr (take 1 request0); request = drop 1 request0 in
      if length request = 1 \<and> hd request \<in> set [''remove'', ''delete'']
        then returns (updateTaskList fs taskName Delete) []
      else
        (case request of
           [] \<Rightarrow> returns (Reply (modify e), fs) []
         | [w] \<Rightarrow> returns (Reply (modify e), fs) []
         | modifyType # v # vs \<Rightarrow>
             if modifyType \<notin> set [''say'', ''every'', ''on'', ''named'']
               then returns (Reply (modify e), fs) []
             else
               (case (if modifyType \<noteq> ''say'' \<and> vs = []
                      then checkRegexNotMatch [(modifyType, v)] else None)
                of
                  Some regexNotMatch \<Rightarrow> returns (Reply regexNotMatch, fs) []
                | None \<Rightarrow>
                    if modifyType = ''say''
                      then returns (updateTaskList fs taskName
                             (Modify (TaskMessage (joinWith '' '' (v # vs))))) []
                    else if modifyType = ''every''
                      then returns (updateTaskList fs taskName
                             (Modify (TotalWaitInterval (parseSeconds (clock e) v)))) [v]
                    else if modifyType = ''on''
                      then returns (updateTaskList fs taskName
                             (Modify (Channel (toLowerCase v)))) []
                    else returns (updateTaskList fs taskName (Modify (Named v))) [])))"

text \<open>
  \<open>xs.splice(start)\<close> removes from \<open>start\<close> to the end; a negative \<open>start\<close> counts
  from the end. \<open>at\<close> is indexing, \<open>None\<close> for \<open>undefined\<close>.
\<close>

definition splice_start :: "int \<Rightarrow> 'a list \<Rightarrow> nat" where
  "splice_start start xs =
     (if start < 0 then nat (max (int (length xs) + start) 0) else min (nat start) (length xs))"

definition at :: "'a list \<Rightarrow> int \<Rightarrow> 'a option" where
  "at xs i = (if 0 \<le> i \<and> i < int (length xs) then Some (xs ! nat i) else None)"

definition exec :: "env \<Rightarrow> store_file \<Rightarrow> string list \<Rightarrow> outcome" where
  "exec e fs request0 =
     (if joinWith '' '' request0 = ''clear task list''
        then returns (Reply ''The task list has been wiped clean.'',
                      writeFileSync_JSON emptyStore) []
      else if at request0 0 = Some ''modify''
        then modifyTask e fs (drop (splice_start 1 request0) request0)
      else
        (let start = splice_start (int (length request0) - 6) request0;
             meta = drop start request0;
             request = take start request0
         in if length request = 0
               \<or> at meta 0 \<noteq> Some ''every''
               \<or> at meta (int (length meta) - 4) \<noteq> Some ''on''
               \<or> at meta (int (length meta) - 2) \<noteq> Some ''named''
              then returns (Reply (usage e), fs) []
            else
              (case (at meta 1, at meta 3, at meta 5) of
                 (Some every, Some on, Some taskName) \<Rightarrow>
                   (case checkRegexNotMatch
                           [(''every'', every), (''on'', on), (''named'', taskName)]
                    of
                      Some regexNotMatch \<Rightarrow> returns (Reply regexNotMatch, fs) []
                    | None \<Rightarrow>
                        (let intervalInSeconds = parseSeconds (clock e) every in
                         if intervalInSeconds = 0
                           then returns (Reply ''Please enter a valid interval.'', fs) [every]
                         else
                           returns
                             (updateTaskList fs (NameStr taskName)
                                (Create \<lparr>totalWaitInterval = intervalInSeconds,
                                         channel = toLowerCase on,
                                         taskMessage = joinWith '' '' request\<rparr>))
                             [every]))
               | _ \<Rightarrow> returns (Thrown TypeError, fs) [])))"

section \<open>Documents and sample data\<close>

text \<open>
  A value that \<open>JSON.parse\<close> can return and that is written back as it is: no
  \<open>undefined\<close>, function or prototype object, and no infinity.
\<close>

fun is_json :: "jsval \<Rightarrow> bool"
  and are_json :: "jsval list \<Rightarrow> bool"
  and members_json :: "(string \<times> jsval) list \<Rightarrow> bool" where
  "is_json JUndefined = False"
| "is_json JNull = True"
| "is_json (JBool b) = True"
| "is_json (JNum n) = True"
| "is_json (JStr s) = True"
| "is_json (JArr xs) = are_json xs"
| "is_json (JObj ps) = members_json ps"
| "is_json JFunction = False"
| "is_json JObjectPrototype = False"
| "is_json (JDecimal neg s n) = True"
| "is_json JInfinity = False"
| "are_json [] = True"
| "are_json (x # xs) = (is_json x \<and> are_json xs)"
| "members_json [] = True"
| "members_json ((k, v) # ps) = (is_json v \<and> members_json ps)"

text \<open>The task of the specification's scenario, stored under \<open>foo\<close>, and a second one.\<close>

definition sample_env :: env where
  "sample_env = \<lparr>PREFIX = ''!'', clock = 1700000000000\<rparr>"

definition foo_task :: jsval where
  "foo_task =
     JObj [(''totalWaitInterval'', JNum 7530), (''channel'', JStr ''pogtv''),
           (''taskMessage'', JStr ''my repeat message'')]"

definition bar_task :: jsval where
  "bar_task =
     JObj [(''totalWaitInterval'', JNum 60), (''channel'', JStr ''other''),
           (''taskMessage'', JStr ''hello'')]"

definition foo_store :: jsval where
  "foo_store = JArr [JObj [(''foo'', foo_task)]]"

definition foo_bar_store :: jsval where
  "foo_bar_store = JArr [JObj [(''foo'', foo_task), (''bar'', bar_task)]]"

text \<open>A store whose only entry has two fields.\<close>

definition two_field_store :: jsval where
  "two_field_store =
     JArr [JObj [(''foo'', JObj [(''channel'', JStr ''pogtv''),
                                (''taskMessage'', JStr ''my repeat message'')])]]"

text \<open>
  A store whose only defect is an interval of \<open>10^21\<close> seconds, which is serialized
  as \<open>1e+21\<close>.
\<close>

definition huge_interval_store :: jsval where
  "huge_interval_store =
     JArr [JObj [(''foo'', JObj [(''totalWaitInterval'', JNum 1000000000000000000000),
                                (''channel'', JStr ''pogtv''),
                                (''taskMessage'', JStr ''my repeat message'')])]]"

section \<open>The matcher decides the language\<close>

lemma rx_match_Fail: "\<not> rx_match Fail s"
  by (induction s) (auto simp: rx_match.simps)

lemma nullable_lang: "nullable r \<longleftrightarrow> [] \<in> lang r"
proof (induction r)
  case (Many r)
  have "concat [] \<in> lang (Many r)" by (simp del: concat.simps) (rule exI[of _ "[]"], simp)
  then show ?case by simp
qed auto

lemma lang_alt: "lang (alt a b) = lang a \<union> lang b"
  by (induction a b rule: alt.induct) auto

lemma lang_cat: "lang (cat a b) = lang (Cat a b)"
  by (induction a b rule: cat.induct) auto

lemma concat_Cons_split:
  assumes "concat ws = c # w" "set ws \<subseteq> A"
  shows "\<exists>u vs. c # u \<in> A \<and> set vs \<subseteq> A \<and> w = u @ concat vs"
  using assms
proof (induction ws)
  case Nil
  then show ?case by simp
next
  case (Cons x xs)
  show ?case
  proof (cases x)
    case Nil
    with Cons show ?thesis by simp
  next
    case (Cons d ds)
    with Cons.prems have "c # ds \<in> A" "set xs \<subseteq> A" "w = ds @ concat xs" by auto
    then show ?thesis by blast
  qed
qed

lemma deriv_cat_set:
  "{w. \<exists>u v. c # w = u @ v \<and> u \<in> A \<and> v \<in> B}
     = {u @ v |u v. c # u \<in> A \<and> v \<in> B} \<union> (if [] \<in> A then {w. c # w \<in> B} else {})"
proof (rule set_eqI, rule iffI)
  fix w assume "w \<in> {w. \<exists>u v. c # w = u @ v \<and> u \<in> A \<and> v \<in> B}"
  then obtain u v where uv: "c # w = u @ v" "u \<in> A" "v \<in> B" by blast
  show "w \<in> {u @ v |u v. c # u \<in> A \<and> v \<in> B} \<union> (if [] \<in> A then {w. c # w \<in> B} else {})"
  proof (cases u)
    case Nil
    with uv show ?thesis by simp
  next
    case (Cons d ds)
    with uv have "w = ds @ v" "c # ds \<in> A" by simp_all
    with uv(3) show ?thesis by blast
  qed
next
  fix w assume w: "w \<in> {u @ v |u v. c # u \<in> A \<and> v \<in> B} \<union> (if [] \<in> A then {w. c # w \<in> B} else {})"
  show "w \<in> {w. \<exists>u v. c # w = u @ v \<and> u \<in> A \<and> v \<in> B}"
  proof (cases "w \<in> {u @ v |u v. c # u \<in> A \<and> v \<in> B}")
    case True
    then obtain u v where "w = u @ v" "c # u \<in> A" "v \<in> B" by blast
    then have "c # w = (c # u) @ v \<and> c # u \<in> A \<and> v \<in> B" by simp
    then show ?thesis by blast
  next
    case False
    with w have "[] \<in> A" "c # w \<in> B" by (auto split: if_splits)
    then have "c # w = [] @ (c # w) \<and> [] \<in> A \<and> c # w \<in> B" by simp
    then show ?thesis by blast
  qed
qed

lemma lang_deriv: "lang (deriv c r) = {w. c # w \<in> lang r}"
proof (induction r)
  case (Cat a b)
  have "{w. c # w \<in> lang (Cat a b)} = {w. \<exists>u v. c # w = u @ v \<and> u \<in> lang a \<and> v \<in> lang b}"
    by simp
  also have "\<dots> = {u @ v |u v. c # u \<in> lang a \<and> v \<in> lang b}
                 \<union> (if [] \<in> lang a then {w. c # w \<in> lang b} else {})"
    by (rule deriv_cat_set)
  also have "\<dots> = lang (deriv c (Cat a b))"
    using Cat by (simp add: lang_alt lang_cat nullable_lang)
  finally show ?case by simp
next
  case (Many a)
  show ?case
  proof (rule set_eqI, rule iffI)
    fix w assume "w \<in> lang (deriv c (Many a))"
    then obtain u v where uv: "w = u @ v" "c # u \<in> lang a" "v \<in> lang (Many a)"
      using Many by (auto simp: lang_cat)
    then obtain vs where vs: "v = concat vs" "set vs \<subseteq> lang a" by auto
    have "c # w = concat ((c # u) # vs) \<and> set ((c # u) # vs) \<subseteq> lang a"
      using uv vs by simp
    then have "c # w \<in> lang (Many a)" unfolding lang.simps by blast
    then show "w \<in> {w. c # w \<in> lang (Many a)}" by simp
  next
    fix w assume "w \<in> {w. c # w \<in> lang (Many a)}"
    then obtain ws where "concat ws = c # w" "set ws \<subseteq> lang a" by auto
    from concat_Cons_split[OF this] obtain u vs
      where "c # u \<in> lang a" "set vs \<subseteq> lang a" "w = u @ concat vs" by blast
    then have "w = u @ concat vs \<and> u \<in> lang (deriv c a) \<and> concat vs \<in> lang (Many a)"
      using Many by auto
    then show "w \<in> lang (deriv c (Many a))"
      by (simp add: lang_cat) blast
  qed
qed (auto simp: lang_alt)

lemma rx_match_lang: "rx_match r s \<longleftrightarrow> s \<in> lang r"
  by (induction s arbitrary: r) (simp_all add: rx_match.simps nullable_lang lang_deriv)

lemma taskList_shape:
  assumes "rx_match taskList s"
  shows "\<exists>t. s = CHR ''['' # CHR ''{'' # t"
proof (cases s)
  case Nil
  with assms show ?thesis by (simp add: taskList_def rx_match.simps)
next
  case (Cons a s')
  show ?thesis
  proof (cases s')
    case Nil
    with assms Cons show ?thesis
      by (simp add: taskList_def rx_match.simps rx_match_Fail split: if_splits)
  next
    case (Cons b s'')
    with assms \<open>s = a # s'\<close> show ?thesis
      by (simp add: taskList_def rx_match.simps rx_match_Fail split: if_splits)
  qed
qed

section \<open>The shape of an accepted document\<close>

lemma digit_char_digit: "n < 10 \<Longrightarrow> digit (digit_char n)"
proof -
  assume "n < 10"
  then have "n \<in> {0, 1, 2, 3, 4, 5, 6, 7, 8, 9}" by auto
  then show ?thesis by (auto simp: digit_char_def digit_def)
qed

lemma digits_of_hd: "\<exists>c cs. digits_of n = c # cs \<and> digit c"
proof (induction n rule: digits_of.induct)
  case (1 n)
  show ?case
  proof (cases "n < 10")
    case True
    then show ?thesis by (simp add: digits_of.simps[of n] digit_char_digit)
  next
    case False
    with 1 obtain c cs where "digits_of (n div 10) = c # cs" "digit c" by blast
    with False show ?thesis by (simp add: digits_of.simps[of n])
  qed
qed

lemma is_json_serializable: "is_json v \<Longrightarrow> serializable v"
  by (cases v) auto

lemma number_text_hd: "\<exists>c cs. number_text s n = c # cs \<and> digit c"
proof -
  obtain c cs where ds: "digits_of s = c # cs" "digit c"
    using digits_of_hd by blast
  show ?thesis
  proof (cases "- 6 < n \<and> n \<le> 21")
    case True
    consider "int (length (c # cs)) \<le> n" | "n < int (length (c # cs))" "0 < n" | "n \<le> 0"
      by linarith
    then show ?thesis
    proof cases
      case 1
      with True ds show ?thesis by (simp add: number_text_def)
    next
      case 2
      then obtain j where "nat n = Suc j" by (cases "nat n") auto
      with True 2 ds show ?thesis by (simp add: number_text_def)
    next
      case 3
      with True ds show ?thesis by (simp add: number_text_def digit_def)
    qed
  next
    case False
    with ds show ?thesis by (cases "cs = []") (auto simp: number_text_def)
  qed
qed

lemma signed_number_text_hd:
  "\<exists>c cs. sign_text neg @ number_text s n = c # cs \<and> (digit c \<or> c = CHR ''-'')"
  using number_text_hd [of s n] by (auto simp: sign_text_def)

lemma Number_toString_hd:
  "\<exists>c cs. Number_toString x = c # cs \<and> (digit c \<or> c = CHR ''-'')"
proof (cases "x = 0")
  case True
  then show ?thesis by (simp add: Number_toString_def digit_def)
next
  case False
  then show ?thesis
    using signed_number_text_hd by (simp add: Number_toString_def)
qed

lemma stringify_hd:
  assumes "is_json x"
  shows "\<exists>c cs. JSON_stringify x = c # cs \<and> (c = CHR ''{'' \<longrightarrow> (\<exists>ps. x = JObj ps))
           \<and> (c = CHR ''['' \<longrightarrow> (\<exists>xs. x = JArr xs))"
proof (cases x)
  case (JNum n)
  obtain c cs where "Number_toString n = c # cs" "digit c \<or> c = CHR ''-''"
    using Number_toString_hd by blast
  then show ?thesis using JNum by (auto simp: digit_def)
next
  case (JDecimal neg s n)
  obtain c cs where "sign_text neg @ number_text s n = c # cs" "digit c \<or> c = CHR ''-''"
    using signed_number_text_hd by blast
  then show ?thesis using JDecimal by (auto simp: digit_def)
qed (use assms in \<open>auto simp: quote_def dq_def\<close>)

lemma joinWith_Cons_hd: "\<exists>r. joinWith sep ((c # cs) # rest) = c # r"
  by (cases rest) auto

lemma validateJSON_True:
  "validateJSON db t = Inr True \<longleftrightarrow> serializable db \<and> rx_match taskList (JSON_stringify db)"
  by (auto simp: validateJSON_def split: sum.splits jsval.splits)

lemma validateJSON_shape:
  assumes "is_json db" and "validateJSON db t = Inr True"
  shows "\<exists>tasks rest. db = JArr (JObj tasks # rest)"
proof -
  from assms(2) have "rx_match taskList (JSON_stringify db)"
    by (simp add: validateJSON_True)
  then obtain s where s: "JSON_stringify db = CHR ''['' # CHR ''{'' # s"
    using taskList_shape by blast
  from stringify_hd[OF assms(1)] s obtain xs where xs: "db = JArr xs"
    by auto
  show ?thesis
  proof (cases xs)
    case Nil
    with s xs show ?thesis by simp
  next
    case (Cons x xs')
    with assms(1) xs have x: "is_json x" by simp
    then obtain c cs where c: "JSON_stringify x = c # cs" "c = CHR ''{'' \<longrightarrow> (\<exists>ps. x = JObj ps)"
      using stringify_hd[of x] by blast
    obtain r where "joinWith '','' ((c # cs) # stringify_elements xs') = c # r"
      using joinWith_Cons_hd by blast
    with s xs Cons x c have "c = CHR ''{''"
      by (simp add: is_json_serializable)
    with c xs Cons show ?thesis by blast
  qed
qed

lemma reparse_json:
  "is_json v \<Longrightarrow> reparse v = v"
  "are_json xs \<Longrightarrow> reparse_elements xs = xs"
  "members_json ps \<Longrightarrow> reparse_members ps = ps"
  by (induction v and xs and ps rule: is_json_are_json_members_json.induct)
     (auto simp: is_json_serializable)

section \<open>The sample documents\<close>

lemma taskList_empty: "rx_match taskList ''[{}]''"
  by code_simp

lemma stringify_emptyStore: "JSON_stringify emptyStore = ''[{}]''"
  by (simp add: emptyStore_def)

lemma emptyStore_valid: "rx_match taskList (JSON_stringify emptyStore)"
  unfolding stringify_emptyStore by (rule taskList_empty)

lemma serializable_emptyStore: "serializable emptyStore"
  by (simp add: emptyStore_def)

lemma validateJSON_emptyStore: "validateJSON emptyStore t = Inr True"
  by (simp add: validateJSON_def emptyStore_valid serializable_emptyStore)

lemma write_emptyStore: "writeFileSync_JSON emptyStore = Json emptyStore"
  by (simp add: writeFileSync_JSON_def emptyStore_def)

lemma quote_plain:
  "list_all (\<lambda>c. c \<noteq> dq \<and> c \<noteq> bsl \<and> 32 \<le> (of_char c :: nat)) s \<Longrightarrow> quote s = dq # s @ [dq]"
  by (induction s) (auto simp: quote_def escape_char_def dq_def bsl_def)

lemma Number_toString_7530: "Number_toString 7530 = ''7530''"
  by (simp add: Number_toString_def sign_text_def number_text_def strip10.simps
        digits_of.simps digit_char_def)

lemma Number_toString_60: "Number_toString 60 = ''60''"
  by (simp add: Number_toString_def sign_text_def number_text_def strip10.simps
        digits_of.simps digit_char_def)

lemma stringify_foo_store:
  \<open>JSON_stringify foo_store =
     ''[{"foo":{"totalWaitInterval":7530,"channel":"pogtv","taskMessage":"my repeat message"}}]''\<close>
  by (simp add: foo_store_def foo_task_def Number_toString_7530 quote_plain dq_def bsl_def)

lemma foo_store_matches:
  \<open>rx_match taskList
     ''[{"foo":{"totalWaitInterval":7530,"channel":"pogtv","taskMessage":"my repeat message"}}]''\<close>
  by code_simp

lemma foo_store_valid: "rx_match taskList (JSON_stringify foo_store)"
  unfolding stringify_foo_store by (rule foo_store_matches)

lemma stringify_foo_bar_store:
  \<open>JSON_stringify foo_bar_store =
     ''[{"foo":{"totalWaitInterval":7530,"channel":"pogtv","taskMessage":"my repeat message"},"bar":{"totalWaitInterval":60,"channel":"other","taskMessage":"hello"}}]''\<close>
  by (simp add: foo_bar_store_def foo_task_def bar_task_def Number_toString_7530
        Number_toString_60 quote_plain dq_def bsl_def)

lemma foo_bar_store_matches:
  \<open>rx_match taskList
     ''[{"foo":{"totalWaitInterval":7530,"channel":"pogtv","taskMessage":"my repeat message"},"bar":{"totalWaitInterval":60,"channel":"other","taskMessage":"hello"}}]''\<close>
  by code_simp

lemma foo_bar_store_valid: "rx_match taskList (JSON_stringify foo_bar_store)"
  unfolding stringify_foo_bar_store by (rule foo_bar_store_matches)

lemma stringify_two_field_store:
  \<open>JSON_stringify two_field_store =
     ''[{"foo":{"channel":"pogtv","taskMessage":"my repeat message"}}]''\<close>
  by (simp add: two_field_store_def quote_plain dq_def bsl_def)

lemma two_field_store_no_match:
  \<open>\<not> rx_match taskList ''[{"foo":{"channel":"pogtv","taskMessage":"my repeat message"}}]''\<close>
  by code_simp

lemma two_field_store_invalid: "\<not> rx_match taskList (JSON_stringify two_field_store)"
  unfolding stringify_two_field_store by (rule two_field_store_no_match)

lemma Number_toString_huge: "Number_toString 1000000000000000000000 = ''1e+21''"
  by (simp add: Number_toString_def sign_text_def number_text_def strip10.simps
        digits_of.simps digit_char_def)

lemma stringify_huge_interval_store:
  \<open>JSON_stringify huge_interval_store =
     ''[{"foo":{"totalWaitInterval":1e+21,"channel":"pogtv","taskMessage":"my repeat message"}}]''\<close>
  by (simp add: huge_interval_store_def Number_toString_huge quote_plain dq_def bsl_def)

lemma huge_interval_store_no_match:
  \<open>\<not> rx_match taskList
     ''[{"foo":{"totalWaitInterval":1e+21,"channel":"pogtv","taskMessage":"my repeat message"}}]''\<close>
  by code_simp

lemma huge_interval_store_invalid:
  "\<not> rx_match taskList (JSON_stringify huge_interval_store)"
  unfolding stringify_huge_interval_store by (rule huge_interval_store_no_match)

section \<open>Properties of the commands\<close>

subsection \<open>Clear\<close>

text \<open>
  C7. Whatever the store file holds, and even when there is none, the command
  \<open>clear task list\<close> leaves the document \<open>[{}]\<close>, a one-element sequence holding an
  empty mapping, and replies with its confirmation.
\<close>

theorem clear_resets_store:
  assumes "joinWith '' '' request = ''clear task list''"
  shows "exec e fs request =
           \<lparr>reply = Reply ''The task list has been wiped clean.'',
            disk = Json (JArr [JObj []]), parsed = []\<rparr>"
  using assms by (simp add: exec_def returns_def writeFileSync_JSON_def emptyStore_def)

theorem clear_resets_store_witness:
  "exec sample_env (Json two_field_store) [''clear'', ''task'', ''list''] =
     \<lparr>reply = Reply ''The task list has been wiped clean.'',
      disk = Json (JArr [JObj []]), parsed = []\<rparr>"
  using clear_resets_store [of "[''clear'', ''task'', ''list'']" sample_env "Json two_field_store"]
  by simp

subsection \<open>The empty store\<close>

lemma checkRegexNotMatch_not_invalid:
  "checkRegexNotMatch xs = Some m \<Longrightarrow> m \<noteq> ''Invalid Task List.''"
  by (induction xs rule: checkRegexNotMatch.induct) (auto split: if_splits)

lemma usage_not_invalid: "usage e \<noteq> ''Invalid Task List.''"
proof
  assume "usage e = ''Invalid Task List.''"
  then have "length (usage e) = length ''Invalid Task List.''" by simp
  then show False by (simp add: usage_def)
qed

lemma modify_not_invalid: "modify e \<noteq> ''Invalid Task List.''"
proof
  assume "modify e = ''Invalid Task List.''"
  then have "length (modify e) = length ''Invalid Task List.''" by simp
  then show False by (simp add: modify_def)
qed

lemma updateTaskList_empty_reply:
  "fst (updateTaskList (Json emptyStore) k u) \<noteq> Reply ''Invalid Task List.''"
proof -
  have v: "validateJSON (JArr [JObj []]) t = Inr True" for t
    using validateJSON_emptyStore[of t] by (simp add: emptyStore_def)
  show ?thesis
    by (cases u) (simp_all add: updateTaskList_def emptyStore_def v Let_def)
qed

lemma modifyTask_empty_reply:
  "reply (modifyTask e (Json emptyStore) r) \<noteq> Reply ''Invalid Task List.''"
  unfolding modifyTask_def Let_def returns_def
  by (auto simp: updateTaskList_empty_reply modify_not_invalid
        dest: checkRegexNotMatch_not_invalid
        split: list.splits option.splits if_splits)

lemma exec_empty_reply:
  "reply (exec e (Json emptyStore) r) \<noteq> Reply ''Invalid Task List.''"
  unfolding exec_def Let_def returns_def
  by (auto simp: updateTaskList_empty_reply modifyTask_empty_reply usage_not_invalid
        dest: checkRegexNotMatch_not_invalid
        split: list.splits option.splits if_splits prod.splits)

text \<open>
  C10. The empty store \<open>[{}]\<close>, which \<open>DBInit\<close> writes when there is no file and
  which \<open>clear task list\<close> leaves, passes \<open>validateJSON\<close> for every task name, and
  no command run on it replies \<open>Invalid Task List.\<close>
\<close>

theorem empty_store_accepted:
  "validateJSON emptyStore t = Inr True
   \<and> DBInit NoFile = Json emptyStore
   \<and> disk (exec e fs [''clear'', ''task'', ''list'']) = Json emptyStore
   \<and> reply (exec e (Json emptyStore) request) \<noteq> Reply ''Invalid Task List.''"
  by (simp add: validateJSON_emptyStore DBInit_def write_emptyStore exec_empty_reply)
     (simp add: exec_def returns_def write_emptyStore)

theorem empty_store_accepted_witness:
  "validateJSON emptyStore (NameArr [''foo'']) = Inr True
   \<and> DBInit NoFile = Json emptyStore
   \<and> disk (exec sample_env NotJSON [''clear'', ''task'', ''list'']) = Json emptyStore
   \<and> reply (exec sample_env (Json emptyStore) [''modify'', ''foo'', ''on'', ''chan1''])
       \<noteq> Reply ''Invalid Task List.''"
  using empty_store_accepted [of "NameArr [''foo'']" sample_env NotJSON
          "[''modify'', ''foo'', ''on'', ''chan1'']"]
  by simp

subsection \<open>A rejected document\<close>

lemma validateJSON_invalid:
  assumes "serializable db" and "\<not> rx_match taskList (JSON_stringify db)"
    and "truthy_name t \<longrightarrow> (\<exists>x. firstOf db = Inr x \<and> x \<noteq> JUndefined \<and> x \<noteq> JNull)"
  shows "validateJSON db t = Inr False"
  using assms
  by (auto simp: validateJSON_def split: sum.splits jsval.splits)

text \<open>
  C1, as amended. Whatever document the store file holds, when its serialized form
  does not match the store pattern, create and delete reply \<open>Invalid Task List.\<close>
  and leave the file as it is; so does modify when the document is a sequence (or a
  string) whose first element is there and is not \<open>null\<close>. The command
  \<open>clear task list\<close> does not validate.
\<close>

theorem invalid_store_rejected:
  assumes "serializable db" and "\<not> rx_match taskList (JSON_stringify db)"
    and "\<forall>p. upd = Modify p \<longrightarrow>
           (\<exists>x. firstOf db = Inr x \<and> x \<noteq> JUndefined \<and> x \<noteq> JNull)"
  shows "updateTaskList (Json db) taskName upd = (Reply ''Invalid Task List.'', Json db)"
proof -
  have "validateJSON db (case upd of Modify p \<Rightarrow> taskName | _ \<Rightarrow> NameStr []) = Inr False"
    using assms by (intro validateJSON_invalid) (auto split: update.splits)
  then show ?thesis by (simp add: updateTaskList_def)
qed

theorem invalid_store_rejected_witness:
  "updateTaskList (Json two_field_store) (NameArr [''foo'']) (Modify (Channel ''newchan''))
     = (Reply ''Invalid Task List.'', Json two_field_store)
   \<and> updateTaskList (Json two_field_store) (NameStr ''foo'') Delete
     = (Reply ''Invalid Task List.'', Json two_field_store)
   \<and> updateTaskList (Json huge_interval_store) (NameArr [''foo'']) Delete
     = (Reply ''Invalid Task List.'', Json huge_interval_store)
   \<and> updateTaskList (Json huge_interval_store) (NameArr [''foo'']) (Modify (Named ''bar''))
     = (Reply ''Invalid Task List.'', Json huge_interval_store)"
  using invalid_store_rejected [of two_field_store "Modify (Channel ''newchan'')" "NameArr [''foo'']"]
        invalid_store_rejected [of two_field_store Delete "NameStr ''foo''"]
        invalid_store_rejected [of huge_interval_store Delete "NameArr [''foo'']"]
        invalid_store_rejected [of huge_interval_store "Modify (Named ''bar'')" "NameArr [''foo'']"]
        two_field_store_invalid huge_interval_store_invalid
  by (simp add: two_field_store_def huge_interval_store_def)

text \<open>
  C1 as the specification states it fails for \<open>clear task list\<close>: on the store whose entry has two
  fields, which the pattern rejects, the command replies with its confirmation and
  overwrites the file.
\<close>

theorem clear_overwrites_invalid_store:
  "\<not> rx_match taskList (JSON_stringify two_field_store)
   \<and> exec sample_env (Json two_field_store) [''clear'', ''task'', ''list''] =
       \<lparr>reply = Reply ''The task list has been wiped clean.'',
        disk = Json emptyStore, parsed = []\<rparr>
   \<and> Json emptyStore \<noteq> Json two_field_store"
  by (simp add: two_field_store_invalid exec_def returns_def write_emptyStore)
     (simp add: emptyStore_def two_field_store_def)

text \<open>
  On a document that is not a sequence the diagnostic of \<open>validateJSON\<close> throws during
  a modify, and the reply is \<open>false\<close>.
\<close>

lemma modify_on_object_document:
  "updateTaskList (Json (JObj [])) (NameArr [''foo'']) (Modify p) = (ReplyFalse, Json (JObj []))"
proof -
  have "\<not> rx_match taskList ''{}''" by code_simp
  then show ?thesis by (simp add: updateTaskList_def validateJSON_def)
qed

subsection \<open>Failures of the store file\<close>

text \<open>
  C8. With no store file, or one that is not JSON, a delete command gets the reply
  \<open>false\<close>, which is not a string.
\<close>

theorem store_failure_replies_false:
  "reply (exec e NoFile [''modify'', ''foo'', ''remove'']) = ReplyFalse
   \<and> reply (exec e NotJSON [''modify'', ''foo'', ''remove'']) = ReplyFalse"
  by (simp add: exec_def at_def splice_start_def modifyTask_def returns_def updateTaskList_def)

theorem store_failure_replies_false_witness:
  "reply (exec sample_env NoFile [''modify'', ''foo'', ''remove'']) = ReplyFalse
   \<and> (\<forall>s. reply (exec sample_env NoFile [''modify'', ''foo'', ''remove'']) \<noteq> Reply s)"
  using store_failure_replies_false [of sample_env] by simp

subsection \<open>Intervals through modify\<close>

lemma every_rx_minus5: "\<not> rx_match every_rx ''-5''"
  by code_simp

lemma every_rx_0: "rx_match every_rx ''0''"
  by code_simp

lemma toDouble_small: "\<bar>x\<bar> < 9007199254740992 \<Longrightarrow> toDouble x = x"
  by (simp add: toDouble_def)

lemma dadd_small: "\<bar>a + b\<bar> < 9007199254740992 \<Longrightarrow> dadd a b = a + b"
  by (simp add: dadd_def toDouble_small)

lemma dmul_small: "\<bar>a * b\<bar> < 9007199254740992 \<Longrightarrow> dmul a b = a * b"
  by (simp add: dmul_def toDouble_small)

lemma parseInt_0: "parseInt ''0'' = Some 0"
  by (simp add: parseInt_def isWhiteSpace_def digit_value_def Let_def toDouble_small)

lemma parseInt_minus5: "parseInt ''-5'' = Some (- 5)"
  by (simp add: parseInt_def isWhiteSpace_def digit_value_def Let_def toDouble_small)

lemma parseSeconds_0: "parseSeconds c ''0'' = 0"
  by (simp add: parseSeconds_def parseInt_0 invalidDate_def Let_def)

lemma validateJSON_foo_store: "validateJSON (JArr [JObj [(''foo'', foo_task)]]) t = Inr True"
  using foo_store_valid by (simp add: validateJSON_def foo_store_def)

text \<open>
  C2. In \<open>modify <name> every <value> <more words>\<close> the field validator is skipped,
  because the request holds more than one word after \<open>every\<close>, and \<open>parseSeconds\<close> is
  called with the first of them: here with \<open>-5\<close>, which the interval pattern rejects.
\<close>

theorem modify_every_skips_validator:
  "parsed (exec e fs [''modify'', ''foo'', ''every'', ''-5'', ''x'']) = [''-5'']
   \<and> \<not> rx_match every_rx ''-5''
   \<and> checkRegexNotMatch [(''every'', ''-5'')]
       = Some ''Interval should be in h:m:s or m:s or s format.''"
  by (simp add: every_rx_minus5)
     (simp add: exec_def at_def splice_start_def modifyTask_def returns_def Let_def)

theorem modify_every_skips_validator_witness:
  "parsed (exec sample_env (Json foo_store) [''modify'', ''foo'', ''every'', ''-5'', ''x''])
     = [''-5'']
   \<and> \<not> rx_match every_rx ''-5''"
  using modify_every_skips_validator [of sample_env "Json foo_store"] by simp

text \<open>The value \<open>parseSeconds\<close> gives for it, \<open>-5\<close>, is stored.\<close>

lemma modify_every_negative_stored:
  "disk (exec sample_env (Json foo_store) [''modify'', ''foo'', ''every'', ''-5'', ''x'']) =
     Json (JArr [JObj [(''foo'',
       JObj [(''totalWaitInterval'', JNum (- 5)), (''channel'', JStr ''pogtv''),
             (''taskMessage'', JStr ''my repeat message'')])]])"
  apply (simp add: exec_def at_def splice_start_def modifyTask_def returns_def Let_def
      updateTaskList_def foo_store_def validateJSON_foo_store)
  apply (simp add: foo_task_def getProp_def setProp_def defineProp_def spread_def
      writeFileSync_JSON_def parseSeconds_def parseInt_minus5 invalidDate_def sample_env_def
      dadd_small)
  done

text \<open>
  Through the skipped validator a part can be negative, and an intermediate sum above
  \<open>2^53\<close> is rounded: the exact total of this interval ends in \<open>981\<close>.
\<close>

lemma parseSeconds_rounds:
  "parseSeconds 1700000000000 ''-2400000000000:143333333333333:8600000000000001''
     = 8559999999999980"
proof -
  have sp: "split_colon ''-2400000000000:143333333333333:8600000000000001''
              = [''-2400000000000'', ''143333333333333'', ''8600000000000001'']"
    by simp
  have p: "parseInt ''-2400000000000'' = Some (- 2400000000000)"
    "parseInt ''143333333333333'' = Some 143333333333333"
    "parseInt ''8600000000000001'' = Some 8600000000000001"
    by (simp_all add: parseInt_def isWhiteSpace_def digit_value_def Let_def toDouble_small)
  have b: "bit_length 17199999999999981 = 54"
    by (simp add: bit_length.simps)
  have r: "dadd 8600000000000001 8599999999999980 = 17199999999999980"
    by (simp add: dadd_def toDouble_def b)
  show ?thesis
    unfolding parseSeconds_def sp
    by (simp add: p Let_def dadd_small dmul_small r invalidDate_def)
qed

text \<open>
  C3. \<open>modify foo every 0\<close> passes the field validator, \<open>parseSeconds\<close> gives \<open>0\<close>,
  and the task is stored with \<open>totalWaitInterval\<close> \<open>0\<close>: unlike \<open>exec\<close> on a create,
  \<open>modifyTask\<close> does not test the result.
\<close>

theorem modify_every_zero_stored:
  "exec e (Json foo_store) [''modify'', ''foo'', ''every'', ''0''] =
     \<lparr>reply = Reply ''Task foo successfully modified.'',
      disk = Json (JArr [JObj [(''foo'',
        JObj [(''totalWaitInterval'', JNum 0), (''channel'', JStr ''pogtv''),
              (''taskMessage'', JStr ''my repeat message'')])]]),
      parsed = [''0'']\<rparr>"
  apply (simp add: exec_def at_def splice_start_def modifyTask_def returns_def Let_def
      updateTaskList_def foo_store_def validateJSON_foo_store every_rx_0 parseSeconds_0)
  apply (simp add: foo_task_def getProp_def setProp_def defineProp_def spread_def
      writeFileSync_JSON_def)
  done

theorem modify_every_zero_stored_witness:
  "disk (exec sample_env (Json foo_store) [''modify'', ''foo'', ''every'', ''0'']) =
     Json (JArr [JObj [(''foo'',
        JObj [(''totalWaitInterval'', JNum 0), (''channel'', JStr ''pogtv''),
              (''taskMessage'', JStr ''my repeat message'')])]])"
  using modify_every_zero_stored [of sample_env] by simp

subsection \<open>Intervals of decimal digits\<close>

lemma digit_facts:
  assumes "digit c"
  shows "c \<noteq> CHR '':''" "\<not> isWhiteSpace c" "c \<noteq> CHR ''-''" "c \<noteq> CHR ''+''"
    "c \<noteq> CHR ''x''" "c \<noteq> CHR ''X''"
    "digit_value c = Some (of_char c - 48)" "(of_char c :: nat) - 48 < 10"
  using assms by (auto simp: digit_def isWhiteSpace_def digit_value_def)

lemma split_colon_digits: "list_all digit s \<Longrightarrow> split_colon s = [s]"
  by (induction s) (auto simp: digit_facts)

lemma split_colon_append:
  "list_all digit h \<Longrightarrow> split_colon (h @ CHR '':'' # rest) = h # split_colon rest"
  by (induction h) (auto simp: digit_facts)

lemma radix_digits_decimal:
  "list_all digit s \<Longrightarrow> radix_digits 10 s = map (\<lambda>c. of_char c - 48) s"
  by (induction s) (auto simp: digit_facts)

lemma foldl_decimal:
  "foldl (\<lambda>a d. a * 10 + d) a (map (\<lambda>c. of_char c - 48) s)
     = foldl (\<lambda>a c. 10 * a + (of_char c - 48)) (a :: nat) s"
  by (induction s arbitrary: a) (simp_all add: mult.commute)

lemma parseInt_digits:
  assumes "s \<noteq> []" "list_all digit s"
  shows "parseInt s = Some (toDouble (int (decimal s)))"
proof (cases s)
  case Nil
  with assms show ?thesis by simp
next
  case (Cons c cs)
  with assms have c: "digit c" "list_all digit cs" by simp_all
  have r: "radix_digits 10 (c # cs) = map (\<lambda>c. of_char c - 48) (c # cs)"
    using c by (intro radix_digits_decimal) simp
  have hex: "take (Suc 0) cs \<noteq> ''x''" "take (Suc 0) cs \<noteq> ''X''"
    using c by (cases cs; auto simp: digit_facts)+
  have "parseInt (c # cs)
          = Some (toDouble
              (int (foldl (\<lambda>a d. a * 10 + d) 0 (map (\<lambda>c. of_char c - 48) (c # cs)))))"
    unfolding parseInt_def Let_def
    using c r by (simp add: digit_facts hex)
  then show ?thesis
    unfolding foldl_decimal decimal_def Cons by simp
qed

lemma parseInt_digits_small:
  assumes "s \<noteq> []" "list_all digit s" "int (decimal s) < 9007199254740992"
  shows "parseInt s = Some (int (decimal s))"
  using assms by (simp add: parseInt_digits toDouble_small)

lemma parseSeconds_hms:
  assumes "h \<noteq> []" "list_all digit h" "m \<noteq> []" "list_all digit m" "s \<noteq> []" "list_all digit s"
    and "0 \<le> epox"
    and "epox + (3600 * int (decimal h) + 60 * int (decimal m) + int (decimal s))
           \<le> 8640000000000000"
  shows "parseSeconds epox (h @ '':'' @ m @ '':'' @ s)
           = 3600 * int (decimal h) + 60 * int (decimal m) + int (decimal s)"
proof -
  define H M S where "H = int (decimal h)" and "M = int (decimal m)" and "S = int (decimal s)"
  have pos: "0 \<le> H" "0 \<le> M" "0 \<le> S"
    by (simp_all add: H_def M_def S_def)
  have bound: "epox + (3600 * H + 60 * M + S) \<le> 8640000000000000"
    using assms(8) by (simp add: H_def M_def S_def)
  have small: "H < 9007199254740992" "M < 9007199254740992" "S < 9007199254740992"
    using pos bound assms(7) by linarith+
  have sp: "split_colon (h @ CHR '':'' # m @ CHR '':'' # s) = [h, m, s]"
    using assms by (simp add: split_colon_append split_colon_digits)
  have p: "parseInt h = Some H" "parseInt m = Some M" "parseInt s = Some S"
    using assms(1-6) small unfolding H_def M_def S_def
    by (simp_all add: parseInt_digits_small)
  have "parseSeconds epox (h @ CHR '':'' # m @ CHR '':'' # s) = S + M * 60 + H * 3600"
    unfolding parseSeconds_def sp
    using pos assms(7) bound
    by (simp add: p Let_def dadd_small dmul_small invalidDate_def)
  then show ?thesis
    by (simp add: H_def M_def S_def)
qed

lemma parseSeconds_ms:
  assumes "m \<noteq> []" "list_all digit m" "s \<noteq> []" "list_all digit s"
    and "0 \<le> epox"
    and "epox + (60 * int (decimal m) + int (decimal s)) \<le> 8640000000000000"
  shows "parseSeconds epox (m @ '':'' @ s) = 60 * int (decimal m) + int (decimal s)"
proof -
  define M S where "M = int (decimal m)" and "S = int (decimal s)"
  have pos: "0 \<le> M" "0 \<le> S"
    by (simp_all add: M_def S_def)
  have bound: "epox + (60 * M + S) \<le> 8640000000000000"
    using assms(6) by (simp add: M_def S_def)
  have small: "M < 9007199254740992" "S < 9007199254740992"
    using pos bound assms(5) by linarith+
  have sp: "split_colon (m @ CHR '':'' # s) = [m, s]"
    using assms by (simp add: split_colon_append split_colon_digits)
  have p: "parseInt m = Some M" "parseInt s = Some S"
    using assms(1-4) small unfolding M_def S_def
    by (simp_all add: parseInt_digits_small)
  have "parseSeconds epox (m @ CHR '':'' # s) = S + M * 60"
    unfolding parseSeconds_def sp
    using pos assms(5) bound
    by (simp add: p Let_def dadd_small dmul_small invalidDate_def)
  then show ?thesis
    by (simp add: M_def S_def)
qed

lemma parseSeconds_s:
  assumes "s \<noteq> []" "list_all digit s"
    and "0 \<le> epox"
    and "epox + int (decimal s) \<le> 8640000000000000"
  shows "parseSeconds epox s = int (decimal s)"
proof -
  define S where "S = int (decimal s)"
  have pos: "0 \<le> S"
    by (simp add: S_def)
  have bound: "epox + S \<le> 8640000000000000"
    using assms(4) by (simp add: S_def)
  have small: "S < 9007199254740992"
    using pos bound assms(3) by linarith
  have p: "parseInt s = Some S"
    using assms(1,2) small unfolding S_def
    by (simp add: parseInt_digits_small)
  have "parseSeconds epox s = S"
    unfolding parseSeconds_def
    using assms(2) pos assms(3) bound
    by (simp add: split_colon_digits p Let_def dadd_small invalidDate_def)
  then show ?thesis
    by (simp add: S_def)
qed

text \<open>
  C4. For components that are strings of decimal digits, within the range of dates
  (the clock not before the epoch, and clock plus total at most \<open>8.64e15\<close>),
  \<open>parseSeconds\<close> reads \<open>h:m:s\<close>, \<open>m:s\<close> and \<open>s\<close> right to left as seconds, minutes
  and hours and returns the total in seconds; \<open>2:5:30\<close> gives \<open>7530\<close> and \<open>60:00\<close>
  gives \<open>3600\<close>.
\<close>

theorem parseSeconds_total:
  assumes "h \<noteq> []" "list_all digit h" "m \<noteq> []" "list_all digit m" "s \<noteq> []" "list_all digit s"
    and "0 \<le> epox"
    and "epox + (3600 * int (decimal h) + 60 * int (decimal m) + int (decimal s))
           \<le> 8640000000000000"
  shows "parseSeconds epox (h @ '':'' @ m @ '':'' @ s)
           = 3600 * int (decimal h) + 60 * int (decimal m) + int (decimal s)
       \<and> parseSeconds epox (m @ '':'' @ s) = 60 * int (decimal m) + int (decimal s)
       \<and> parseSeconds epox s = int (decimal s)
       \<and> (epox + 7530 \<le> 8640000000000000 \<longrightarrow>
            parseSeconds epox ''2:5:30'' = 7530 \<and> parseSeconds epox ''60:00'' = 3600)"
proof -
  have a: "parseSeconds epox (h @ '':'' @ m @ '':'' @ s)
           = 3600 * int (decimal h) + 60 * int (decimal m) + int (decimal s)"
    using assms by (rule parseSeconds_hms)
  have b: "parseSeconds epox (m @ '':'' @ s) = 60 * int (decimal m) + int (decimal s)"
    using assms by (intro parseSeconds_ms) auto
  have c: "parseSeconds epox s = int (decimal s)"
    using assms by (intro parseSeconds_s) auto
  have d: "parseSeconds epox ''2:5:30'' = 7530" if "epox + 7530 \<le> 8640000000000000"
    using parseSeconds_hms [of "''2''" "''5''" "''30''" epox] that assms(7)
    by (simp add: digit_def decimal_def)
  have e: "parseSeconds epox ''60:00'' = 3600" if "epox + 7530 \<le> 8640000000000000"
    using parseSeconds_ms [of "''60''" "''00''" epox] that assms(7)
    by (simp add: digit_def decimal_def)
  from a b c d e show ?thesis by blast
qed

theorem parseSeconds_total_witness:
  "parseSeconds 1700000000000 ''2:5:30'' = 7530
   \<and> parseSeconds 1700000000000 ''5:30'' = 330
   \<and> parseSeconds 1700000000000 ''30'' = 30
   \<and> parseSeconds 1700000000000 ''60:00'' = 3600"
  using parseSeconds_total [of "''2''" "''5''" "''30''" 1700000000000]
  by (simp add: digit_def decimal_def)

subsection \<open>Properties of an object\<close>

lemma map_of_addProp:
  "k \<notin> fst ` set ps \<Longrightarrow> map_of (addProp ps k v) = (map_of ps)(k \<mapsto> v)"
  by (induction ps) (auto simp: fun_upd_twist)

lemma map_of_replace_other:
  "x \<noteq> k \<Longrightarrow>
     map_of (map (\<lambda>(k', v'). if k' = k then (k', v) else (k', v')) ps) x = map_of ps x"
  by (induction ps) (simp_all add: case_prod_beta)

lemma map_of_replace_same:
  "k \<in> fst ` set ps \<Longrightarrow>
     map_of (map (\<lambda>(k', v'). if k' = k then (k', v) else (k', v')) ps) k = Some v"
proof (induction ps)
  case Nil
  then show ?case by simp
next
  case (Cons p ps)
  show ?case
  proof (cases "fst p = k")
    case True
    then show ?thesis by (simp add: case_prod_beta)
  next
    case False
    with Cons.prems have "k \<in> fst ` set ps" by auto
    with Cons.IH False show ?thesis by (simp add: case_prod_beta)
  qed
qed

lemma map_of_replace:
  assumes "k \<in> fst ` set ps"
  shows "map_of (map (\<lambda>(k', v'). if k' = k then (k', v) else (k', v')) ps) = (map_of ps)(k \<mapsto> v)"
proof (rule ext)
  fix x
  show "map_of (map (\<lambda>(k', v'). if k' = k then (k', v) else (k', v')) ps) x
          = ((map_of ps)(k \<mapsto> v)) x"
    using assms by (cases "x = k") (simp_all add: map_of_replace_other map_of_replace_same)
qed

lemma map_of_defineProp: "map_of (defineProp ps k v) = (map_of ps)(k \<mapsto> v)"
  by (simp add: defineProp_def map_of_addProp map_of_replace)

lemma map_of_deleteProp: "map_of (deleteProp ps k) = (map_of ps)(k := None)"
  by (induction ps) (auto simp: deleteProp_def)

lemma keys_replace:
  "map fst (map (\<lambda>(k', v'). if k' = k then (k', v) else (k', v')) ps) = map fst ps"
  by (induction ps) auto

lemma length_deleteProp:
  "distinct (map fst ps) \<Longrightarrow> k \<in> fst ` set ps \<Longrightarrow> Suc (length (deleteProp ps k)) = length ps"
proof (induction ps)
  case Nil
  then show ?case by simp
next
  case (Cons p ps)
  show ?case
  proof (cases "fst p = k")
    case True
    with Cons.prems have "k \<notin> fst ` set ps" by auto
    then have "filter (\<lambda>(k', v'). k' \<noteq> k) ps = ps"
      by (intro filter_True) force
    with True show ?thesis by (simp add: deleteProp_def case_prod_beta)
  next
    case False
    with Cons show ?thesis by (auto simp: deleteProp_def case_prod_beta)
  qed
qed

lemma members_json_iff: "members_json ps \<longleftrightarrow> (\<forall>(k, v) \<in> set ps. is_json v)"
  by (induction ps) auto

lemma set_addProp: "set (addProp ps k v) = insert (k, v) (set ps)"
  by (induction ps) (auto split: if_splits)

lemma members_json_defineProp:
  "members_json ps \<Longrightarrow> is_json v \<Longrightarrow> members_json (defineProp ps k v)"
  by (auto simp: members_json_iff defineProp_def set_addProp split: if_splits)

lemma members_json_setProp:
  "members_json ps \<Longrightarrow> is_json v \<Longrightarrow> members_json (setProp ps k v)"
  by (simp add: setProp_def members_json_defineProp)

lemma members_json_deleteProp: "members_json ps \<Longrightarrow> members_json (deleteProp ps k)"
  by (auto simp: members_json_iff deleteProp_def)

lemma members_json_lookup: "members_json ps \<Longrightarrow> map_of ps k = Some v \<Longrightarrow> is_json v"
  by (auto simp: members_json_iff dest: map_of_SomeD)

lemma write_json: "members_json ps \<Longrightarrow> writeFileSync_JSON (JArr [JObj ps]) = Json (JArr [JObj ps])"
  by (simp add: writeFileSync_JSON_def reparse_json)

lemma getProp_own: "map_of ps k = Some v \<Longrightarrow> getProp ps k = v"
  by (simp add: getProp_def)

lemma is_json_taskObject: "is_json (JObj (taskObject t))"
  by (simp add: taskObject_def)

lemma validateJSON_accepts:
  "rx_match taskList (JSON_stringify (JArr (JObj tasks # rest))) \<Longrightarrow>
     validateJSON (JArr (JObj tasks # rest)) t = Inr True"
  by (simp add: validateJSON_def)

subsection \<open>Create\<close>

lemma create_existing:
  assumes "rx_match taskList (JSON_stringify (JArr [JObj tasks]))"
    and "map_of tasks name = Some v" and "truthy v"
  shows "updateTaskList (Json (JArr [JObj tasks])) (NameStr name) (Create t) =
           (Reply (''Task with name '' @ [CHR 0x27] @ name @ [CHR 0x27] @ '' already exists.''),
            Json (JArr [JObj tasks]))"
  using assms
  by (simp add: updateTaskList_def validateJSON_accepts getProp_own del: JSON_stringify.simps)

lemma create_absent:
  assumes "rx_match taskList (JSON_stringify (JArr [JObj tasks]))"
    and "members_json tasks"
    and "map_of tasks name = None"
    and "name \<noteq> ''__proto__''" and "name \<notin> set objectPrototypeMethods"
  shows "updateTaskList (Json (JArr [JObj tasks])) (NameStr name) (Create t) =
           (Reply (''Task '' @ name @ '' activated on channel '' @ channel t @ ''.''),
            Json (JArr [JObj (addProp tasks name (JObj (taskObject t)))]))
         \<and> map_of (addProp tasks name (JObj (taskObject t)))
             = (map_of tasks)(name \<mapsto> JObj (taskObject t))"
proof -
  have absent: "name \<notin> fst ` set tasks"
    using assms(3) by (simp add: map_of_eq_None_iff)
  then have set: "setProp tasks name (JObj (taskObject t)) = addProp tasks name (JObj (taskObject t))"
    using assms(4) by (simp add: setProp_def defineProp_def)
  have "members_json (setProp tasks name (JObj (taskObject t)))"
    using assms(2) by (intro members_json_setProp is_json_taskObject)
  then have w: "writeFileSync_JSON (JArr [JObj (addProp tasks name (JObj (taskObject t)))])
                  = Json (JArr [JObj (addProp tasks name (JObj (taskObject t)))])"
    unfolding set by (rule write_json)
  have g: "\<not> truthy (getProp tasks name)"
    using assms(3,4,5) by (simp add: getProp_def)
  show ?thesis
    using assms(1) g
    by (simp add: updateTaskList_def validateJSON_accepts set w map_of_addProp absent
          del: JSON_stringify.simps)
qed

subsection \<open>Create and rename at the failing inputs\<close>

lemma every_rx_5: "rx_match every_rx ''5''"
  by code_simp

lemma on_rx_chan1: "rx_match on_rx ''chan1''"
  by code_simp

lemma named_rx_constructor: "rx_match named_rx ''constructor''"
  by code_simp

lemma named_rx_foo: "rx_match named_rx ''foo''"
  by code_simp

lemma named_rx_bar: "rx_match named_rx ''bar''"
  by code_simp

lemma parseSeconds_5: "parseSeconds (clock sample_env) ''5'' = 5"
  using parseSeconds_s [of "''5''" "clock sample_env"]
  by (simp add: digit_def decimal_def sample_env_def)

text \<open>
  C5. On the empty store, creating a task named \<open>constructor\<close>, a name the field
  validator accepts and the store does not hold, is refused as already existing and
  nothing is written: \<open>tasks[taskName]\<close> finds the method of \<open>Object.prototype\<close>.
\<close>

theorem create_constructor_refused:
  "exec sample_env (Json emptyStore)
        [''hi'', ''every'', ''5'', ''on'', ''chan1'', ''named'', ''constructor'']
     = \<lparr>reply = Reply (''Task with name '' @ [CHR 0x27] @ ''constructor'' @ [CHR 0x27]
                        @ '' already exists.''),
        disk = Json emptyStore, parsed = [''5'']\<rparr>
   \<and> map_of ([] :: obj) ''constructor'' = None
   \<and> checkRegexNotMatch [(''named'', ''constructor'')] = None"
proof -
  have v: "validateJSON (JArr [JObj []]) t = Inr True" for t
    using validateJSON_emptyStore [of t] by (simp add: emptyStore_def)
  show ?thesis
    by (simp add: exec_def at_def splice_start_def returns_def Let_def every_rx_5 on_rx_chan1
          named_rx_constructor parseSeconds_5 updateTaskList_def emptyStore_def v getProp_def
          objectPrototypeMethods_def)
qed

theorem create_constructor_refused_witness:
  "reply (exec sample_env (Json emptyStore)
            [''hi'', ''every'', ''5'', ''on'', ''chan1'', ''named'', ''constructor''])
     \<noteq> Reply ''Task constructor activated on channel chan1.''
   \<and> disk (exec sample_env (Json emptyStore)
            [''hi'', ''every'', ''5'', ''on'', ''chan1'', ''named'', ''constructor''])
     = Json emptyStore"
  using create_constructor_refused by simp

text \<open>
  C6. \<open>modify foo named foo\<close> on a store holding \<open>foo\<close>: the guard compares the array
  \<open>taskName\<close> with the string, finds them different, assigns the record to its own
  key and deletes that key. The task is gone and the reply reports success.
\<close>

theorem rename_to_same_name_deletes:
  "exec e (Json foo_store) [''modify'', ''foo'', ''named'', ''foo'']
     = \<lparr>reply = Reply ''Task foo successfully modified.'', disk = Json emptyStore,
        parsed = []\<rparr>"
  apply (simp add: exec_def at_def splice_start_def modifyTask_def returns_def Let_def
      updateTaskList_def foo_store_def validateJSON_foo_store named_rx_foo)
  apply (simp add: foo_task_def getProp_def setProp_def defineProp_def deleteProp_def
      writeFileSync_JSON_def emptyStore_def)
  done

theorem rename_to_same_name_deletes_witness:
  "disk (exec sample_env (Json foo_store) [''modify'', ''foo'', ''named'', ''foo''])
     = Json (JArr [JObj []])
   \<and> foo_store \<noteq> JArr [JObj []]"
  using rename_to_same_name_deletes [of sample_env]
  by (simp add: emptyStore_def foo_store_def)

subsection \<open>Rename\<close>

lemma lookup_key: "map_of ps k = Some v \<Longrightarrow> k \<in> fst ` set ps"
  by (force dest: map_of_SomeD)

lemma exec_modify_named:
  assumes "rx_match named_rx new"
  shows "exec e fs [''modify'', old, ''named'', new]
           = returns (updateTaskList fs (NameArr [old]) (Modify (Named new))) []"
  using assms
  by (simp add: exec_def at_def splice_start_def modifyTask_def Let_def)

lemma rename_moves_record:
  assumes "rx_match taskList (JSON_stringify (JArr [JObj tasks]))"
    and "members_json tasks"
    and "map_of tasks old = Some r" and "truthy r"
    and "new \<noteq> old"
    and "new \<noteq> ''__proto__'' \<or> new \<in> fst ` set tasks"
  shows "updateTaskList (Json (JArr [JObj tasks])) (NameArr [old]) (Modify (Named new)) =
           (Reply (''Task '' @ old @ '' successfully modified.''),
            Json (JArr [JObj (deleteProp (defineProp tasks new r) old)]))
         \<and> map_of (deleteProp (defineProp tasks new r) old)
             = (map_of tasks)(new \<mapsto> r, old := None)"
proof -
  have set: "setProp tasks new r = defineProp tasks new r"
    using assms(6) by (auto simp: setProp_def)
  have "is_json r"
    using assms(2,3) by (rule members_json_lookup)
  with assms(2) have "members_json (deleteProp (defineProp tasks new r) old)"
    by (intro members_json_deleteProp members_json_defineProp)
  then have w: "writeFileSync_JSON (JArr [JObj (deleteProp (defineProp tasks new r) old)])
                  = Json (JArr [JObj (deleteProp (defineProp tasks new r) old)])"
    by (rule write_json)
  show ?thesis
    using assms(1,3,4)
    by (simp add: updateTaskList_def validateJSON_accepts getProp_own set w
          map_of_deleteProp map_of_defineProp del: JSON_stringify.simps)
qed

text \<open>
  C9. Renaming \<open>old\<close> to the name of another task of the store passes no conflict
  check: the record of \<open>old\<close> replaces the one stored under \<open>new\<close>, the key \<open>old\<close> is
  removed, every other task stays, the store holds one task fewer, and the reply
  reports success.
\<close>

theorem rename_onto_existing_overwrites:
  assumes "rx_match taskList (JSON_stringify (JArr [JObj tasks]))"
    and "members_json tasks" and "distinct (map fst tasks)"
    and "map_of tasks old = Some r" and "truthy r"
    and "map_of tasks new = Some r'" and "new \<noteq> old"
    and "rx_match named_rx new"
  shows "\<exists>tasks'.
           exec e (Json (JArr [JObj tasks])) [''modify'', old, ''named'', new]
             = \<lparr>reply = Reply (''Task '' @ old @ '' successfully modified.''),
                disk = Json (JArr [JObj tasks']), parsed = []\<rparr>
           \<and> map_of tasks' = (map_of tasks)(new \<mapsto> r, old := None)
           \<and> Suc (length tasks') = length tasks"
proof -
  let ?t = "deleteProp (defineProp tasks new r) old"
  have new_in: "new \<in> fst ` set tasks"
    using assms(6) by (rule lookup_key)
  have old_in: "old \<in> fst ` set tasks"
    using assms(4) by (rule lookup_key)
  have d: "defineProp tasks new r
             = map (\<lambda>(k', v'). if k' = new then (k', r) else (k', v')) tasks"
    using new_in by (simp add: defineProp_def)
  have keys: "map fst (defineProp tasks new r) = map fst tasks"
    unfolding d by (rule keys_replace)
  have "Suc (length ?t) = length (defineProp tasks new r)"
  proof (rule length_deleteProp)
    show "distinct (map fst (defineProp tasks new r))"
      using assms(3) by (simp add: keys)
    have "set (map fst (defineProp tasks new r)) = set (map fst tasks)"
      by (simp only: keys)
    then show "old \<in> fst ` set (defineProp tasks new r)"
      using old_in by simp
  qed
  also have "\<dots> = length tasks"
    unfolding d by simp
  finally have len: "Suc (length ?t) = length tasks" .
  have u: "updateTaskList (Json (JArr [JObj tasks])) (NameArr [old]) (Modify (Named new)) =
             (Reply (''Task '' @ old @ '' successfully modified.''), Json (JArr [JObj ?t]))
           \<and> map_of ?t = (map_of tasks)(new \<mapsto> r, old := None)"
    using assms(1,2,4,5,7) new_in by (intro rename_moves_record) auto
  have "exec e (Json (JArr [JObj tasks])) [''modify'', old, ''named'', new]
          = \<lparr>reply = Reply (''Task '' @ old @ '' successfully modified.''),
             disk = Json (JArr [JObj ?t]), parsed = []\<rparr>"
    using u by (simp add: exec_modify_named [OF assms(8)] returns_def)
  with u len show ?thesis by blast
qed

theorem rename_onto_existing_overwrites_witness:
  "exec sample_env (Json foo_bar_store) [''modify'', ''foo'', ''named'', ''bar'']
     = \<lparr>reply = Reply ''Task foo successfully modified.'',
        disk = Json (JArr [JObj [(''bar'', foo_task)]]), parsed = []\<rparr>"
proof -
  have "members_json [(''foo'', foo_task), (''bar'', bar_task)]"
    by (simp add: foo_task_def bar_task_def)
  moreover have "truthy foo_task"
    by (simp add: foo_task_def)
  moreover have "rx_match taskList (JSON_stringify (JArr [JObj [(''foo'', foo_task), (''bar'', bar_task)]]))"
    using foo_bar_store_valid by (simp only: foo_bar_store_def)
  ultimately obtain tasks' where
    t: "exec sample_env (Json (JArr [JObj [(''foo'', foo_task), (''bar'', bar_task)]]))
          [''modify'', ''foo'', ''named'', ''bar'']
        = \<lparr>reply = Reply (''Task '' @ ''foo'' @ '' successfully modified.''),
           disk = Json (JArr [JObj tasks']), parsed = []\<rparr>"
    using rename_onto_existing_overwrites
            [of "[(''foo'', foo_task), (''bar'', bar_task)]" "''foo''" foo_task "''bar''" bar_task
                sample_env]
          named_rx_bar
    by auto
  have "disk (exec sample_env (Json foo_bar_store) [''modify'', ''foo'', ''named'', ''bar''])
          = Json (JArr [JObj [(''bar'', foo_task)]])"
    apply (simp add: exec_modify_named [OF named_rx_bar] returns_def updateTaskList_def
        foo_bar_store_def validateJSON_accepts foo_bar_store_valid [unfolded foo_bar_store_def]
        del: JSON_stringify.simps)
    apply (simp add: getProp_def setProp_def defineProp_def deleteProp_def
        writeFileSync_JSON_def foo_task_def)
    done
  with t show ?thesis by (simp add: foo_bar_store_def)
qed

subsection \<open>No command throws\<close>

lemma updateTaskList_not_thrown: "fst (updateTaskList fs k u) \<noteq> Thrown err"
  by (auto simp: updateTaskList_def Let_def
      split: store_file.splits sum.splits bool.splits jsval.splits list.splits update.splits
             patch.splits)

lemma modifyTask_not_thrown: "reply (modifyTask e fs r) \<noteq> Thrown err"
  unfolding modifyTask_def Let_def returns_def
  by (auto simp: updateTaskList_not_thrown split: list.splits option.splits if_splits)

lemma at_meta:
  assumes "at (drop (splice_start (int (length xs) - 6) xs) xs)
             (int (length (drop (splice_start (int (length xs) - 6) xs) xs)) - 4) = Some w"
  shows "6 \<le> length xs"
proof -
  from assms have "4 \<le> length (drop (splice_start (int (length xs) - 6) xs) xs)"
    by (auto simp: at_def split: if_splits)
  then show ?thesis
    by (auto simp: splice_start_def max_def split: if_splits)
qed

lemma exec_not_thrown: "reply (exec e fs r) \<noteq> Thrown err"
proof (cases "6 \<le> length r")
  case True
  define meta where "meta = drop (splice_start (int (length r) - 6) r) r"
  have "length meta = Suc (Suc (Suc (Suc (Suc (Suc 0)))))"
    using True by (simp add: meta_def splice_start_def)
  then obtain a b c d f g where "meta = [a, b, c, d, f, g]"
    by (auto simp: length_Suc_conv)
  then have m: "drop (splice_start (int (length r) - 6) r) r = [a, b, c, d, f, g]"
    by (simp add: meta_def)
  show ?thesis
    unfolding exec_def Let_def returns_def m
    by (auto simp: updateTaskList_not_thrown modifyTask_not_thrown at_def
        split: option.splits)
next
  case False
  have "at (drop (splice_start (int (length r) - 6) r) r)
          (int (length (drop (splice_start (int (length r) - 6) r) r)) - 4) \<noteq> Some ''on''"
    using at_meta [of r "''on''"] False by blast
  then show ?thesis
    unfolding exec_def Let_def returns_def
    by (auto simp: modifyTask_not_thrown)
qed

subsection \<open>Delete\<close>

lemma delete_existing:
  assumes "rx_match taskList (JSON_stringify (JArr [JObj tasks]))"
    and "members_json tasks"
    and "map_of tasks (toPropertyKey taskName) = Some r" and "truthy r"
  shows "updateTaskList (Json (JArr [JObj tasks])) taskName Delete =
           (Reply (''Task '' @ toPropertyKey taskName @ '' successfully removed.''),
            Json (JArr [JObj (deleteProp tasks (toPropertyKey taskName))]))
         \<and> map_of (deleteProp tasks (toPropertyKey taskName))
             = (map_of tasks)(toPropertyKey taskName := None)"
proof -
  have "members_json (deleteProp tasks (toPropertyKey taskName))"
    using assms(2) by (rule members_json_deleteProp)
  then have w: "writeFileSync_JSON (JArr [JObj (deleteProp tasks (toPropertyKey taskName))])
                  = Json (JArr [JObj (deleteProp tasks (toPropertyKey taskName))])"
    by (rule write_json)
  show ?thesis
    using assms(1,3,4)
    by (simp add: updateTaskList_def validateJSON_accepts getProp_own w map_of_deleteProp
          Let_def del: JSON_stringify.simps)
qed

end
